theory Spec2Isabelle
  imports Complex_Main
begin

section \<open>Python values\<close>

text \<open>
  The translator of \<^verbatim>\<open>google_calendar.py\<close> works on Python strings, on \<^verbatim>\<open>datetime\<close>
  objects and on dictionaries keyed by strings. Exceptions are values of \<open>py_error\<close>.
\<close>

datatype py_error = KeyError | IndexError | TypeError | ValueError

text \<open>
  A \<^verbatim>\<open>datetime.datetime\<close>: the fields of the Python object. Years are unbounded here;
  CPython keeps them in 1..9999 and raises OverflowError outside.
\<close>

record datetime =
  year :: int
  month :: int
  day :: int
  hour :: int
  minute :: int
  second :: int
  microsecond :: int
  tzinfo :: "string option"

subsection \<open>The proleptic Gregorian calendar of \<^verbatim>\<open>datetime\<close>\<close>

definition is_leap :: "int \<Rightarrow> bool" where
  "is_leap y = (y mod 4 = 0 \<and> (y mod 100 \<noteq> 0 \<or> y mod 400 = 0))"

definition DAYS_IN_MONTH :: "int list" where
  "DAYS_IN_MONTH = [-1, 31, 28, 31, 30, 31, 30, 31, 31, 30, 31, 30, 31]"

definition DAYS_BEFORE_MONTH :: "int list" where
  "DAYS_BEFORE_MONTH = [-1, 0, 31, 59, 90, 120, 151, 181, 212, 243, 273, 304, 334]"

definition days_before_year :: "int \<Rightarrow> int" where
  "days_before_year y =
     (let y1 = y - 1 in y1 * 365 + y1 div 4 - y1 div 100 + y1 div 400)"

definition days_in_month :: "int \<Rightarrow> int \<Rightarrow> int" where
  "days_in_month y m =
     (if m = 2 \<and> is_leap y then 29 else DAYS_IN_MONTH ! nat m)"

definition days_before_month :: "int \<Rightarrow> int \<Rightarrow> int" where
  "days_before_month y m =
     DAYS_BEFORE_MONTH ! nat m + (if m > 2 \<and> is_leap y then 1 else 0)"

definition ymd2ord :: "int \<Rightarrow> int \<Rightarrow> int \<Rightarrow> int" where
  "ymd2ord y m d = days_before_year y + days_before_month y m + d"

definition toordinal :: "datetime \<Rightarrow> int" where
  "toordinal dt = ymd2ord (year dt) (month dt) (day dt)"

text \<open>\<^verbatim>\<open>dt.weekday()\<close>: Monday is 0, Sunday is 6.\<close>

definition weekday :: "datetime \<Rightarrow> int" where
  "weekday dt = (toordinal dt + 6) mod 7"

definition valid_date :: "datetime \<Rightarrow> bool" where
  "valid_date dt =
     (1 \<le> month dt \<and> month dt \<le> 12 \<and> 1 \<le> day dt \<and>
      day dt \<le> days_in_month (year dt) (month dt))"

text \<open>
  Adding a \<^verbatim>\<open>timedelta\<close> of whole days moves the date along the calendar one day at a
  time; the time of day and the time zone stay.
\<close>

definition next_day :: "datetime \<Rightarrow> datetime" where
  "next_day dt =
     (if day dt < days_in_month (year dt) (month dt) then dt\<lparr>day := day dt + 1\<rparr>
      else if month dt < 12 then dt\<lparr>month := month dt + 1, day := 1\<rparr>
      else dt\<lparr>year := year dt + 1, month := 1, day := 1\<rparr>)"

definition prev_day :: "datetime \<Rightarrow> datetime" where
  "prev_day dt =
     (if 1 < day dt then dt\<lparr>day := day dt - 1\<rparr>
      else if 1 < month dt
        then dt\<lparr>month := month dt - 1, day := days_in_month (year dt) (month dt - 1)\<rparr>
      else dt\<lparr>year := year dt - 1, month := 12, day := 31\<rparr>)"

definition add_days :: "datetime \<Rightarrow> int \<Rightarrow> datetime" where
  "add_days dt n =
     (if 0 \<le> n then (next_day ^^ nat n) dt else (prev_day ^^ nat (- n)) dt)"

definition add_weeks :: "datetime \<Rightarrow> int \<Rightarrow> datetime" where
  "add_weeks dt w = add_days dt (7 * w)"

definition add_minutes :: "datetime \<Rightarrow> int \<Rightarrow> datetime" where
  "add_minutes dt n =
     (let total = hour dt * 60 + minute dt + n
      in (add_days dt (total div 1440))
           \<lparr>hour := (total mod 1440) div 60, minute := total mod 60\<rparr>)"


section \<open>The month week number\<close>

text \<open>
  \<^verbatim>\<open>get_week_number(dt)\<close>:
  \<^verbatim>\<open>first_day = dt.replace(day=1); dom = dt.day; adjusted_dom = dom + first_day.weekday();
  return int(ceil(adjusted_dom / 7.0))\<close>.
  The quotient of an integer below 2^53 by 7.0 rounds to a float on the same side of every
  integer, so the ceiling is the ceiling of the exact quotient, written here with integer
  division.
\<close>

definition get_week_number :: "datetime \<Rightarrow> int" where
  "get_week_number dt =
     (let first_day = dt\<lparr>day := 1\<rparr>;
          dom = day dt;
          adjusted_dom = dom + weekday first_day
      in (adjusted_dom + 6) div 7)"

section \<open>Python strings\<close>

text \<open>\<^verbatim>\<open>pat in s\<close> on two strings: \<open>pat\<close> occurs in \<open>s\<close> as a contiguous run.\<close>

fun starts_with :: "string \<Rightarrow> string \<Rightarrow> bool" where
  "starts_with [] s = True"
| "starts_with (p # ps) [] = False"
| "starts_with (p # ps) (c # cs) = (p = c \<and> starts_with ps cs)"

fun str_in :: "string \<Rightarrow> string \<Rightarrow> bool" where
  "str_in pat [] = (pat = [])"
| "str_in pat (c # cs) = (starts_with pat (c # cs) \<or> str_in pat cs)"

text \<open>\<^verbatim>\<open>s.split(sep)\<close> for a separator of one character.\<close>

fun split_on :: "char \<Rightarrow> string \<Rightarrow> string list" where
  "split_on sep [] = [[]]"
| "split_on sep (c # cs) =
     (if c = sep then [] # split_on sep cs
      else (case split_on sep cs of
              [] \<Rightarrow> [[c]]
            | p # ps \<Rightarrow> (c # p) # ps))"

text \<open>\<^verbatim>\<open>s.lower()\<close> on ASCII letters.\<close>

definition lower_char :: "char \<Rightarrow> char" where
  "lower_char c =
     (let n = (of_char c :: nat) in if 65 \<le> n \<and> n \<le> 90 then char_of (n + 32) else c)"

definition lower :: "string \<Rightarrow> string" where
  "lower s = map lower_char s"

text \<open>
  \<^verbatim>\<open>int(x)\<close> for \<^verbatim>\<open>None\<close> (a TypeError) and for a string of decimal digits with an
  optional minus sign (anything else is a ValueError here).
\<close>

definition digit_of :: "char \<Rightarrow> nat option" where
  "digit_of c =
     (let n = (of_char c :: nat) in if 48 \<le> n \<and> n \<le> 57 then Some (n - 48) else None)"

fun digits_value :: "nat \<Rightarrow> string \<Rightarrow> nat option" where
  "digits_value acc [] = Some acc"
| "digits_value acc (c # cs) =
     (case digit_of c of None \<Rightarrow> None | Some d \<Rightarrow> digits_value (10 * acc + d) cs)"

definition py_int :: "string option \<Rightarrow> py_error + int" where
  "py_int x =
     (case x of
        None \<Rightarrow> Inl TypeError
      | Some [] \<Rightarrow> Inl ValueError
      | Some (c # cs) \<Rightarrow>
          (if c = CHR ''-'' then
             (case cs of
                [] \<Rightarrow> Inl ValueError
              | _ # _ \<Rightarrow> (case digits_value 0 cs of
                           None \<Rightarrow> Inl ValueError
                         | Some n \<Rightarrow> Inr (- int n)))
           else (case digits_value 0 (c # cs) of
                   None \<Rightarrow> Inl ValueError
                 | Some n \<Rightarrow> Inr (int n))))"

text \<open>\<^verbatim>\<open>str(n)\<close> for an integer.\<close>

fun str_nat :: "nat \<Rightarrow> string" where
  "str_nat n =
     (if n < 10 then [char_of (48 + n)]
      else str_nat (n div 10) @ [char_of (48 + n mod 10)])"

definition str_int :: "int \<Rightarrow> string" where
  "str_int i = (if i < 0 then CHR ''-'' # str_nat (nat (- i)) else str_nat (nat i))"

section \<open>Dictionaries and the module tables\<close>

datatype pyval =
    VNone
  | VInt int
  | VStr string
  | VDatetime datetime
  | VList "pyval list"

type_synonym pydict = "string \<rightharpoonup> pyval"

definition opt_str :: "string option \<Rightarrow> pyval" where
  "opt_str x = (case x of None \<Rightarrow> VNone | Some s \<Rightarrow> VStr s)"

text \<open>Python truthiness of a value read from a document.\<close>

fun truthy :: "pyval option \<Rightarrow> bool" where
  "truthy None = False"
| "truthy (Some VNone) = False"
| "truthy (Some (VInt n)) = (n \<noteq> 0)"
| "truthy (Some (VStr s)) = (s \<noteq> [])"
| "truthy (Some (VDatetime d)) = True"
| "truthy (Some (VList xs)) = (xs \<noteq> [])"

definition google_calendar_frequencies :: "string \<rightharpoonup> string" where
  "google_calendar_frequencies = map_of
     [(''RRULE:FREQ=DAILY'', ''Daily''),
      (''RRULE:FREQ=WEEKLY'', ''Weekly''),
      (''RRULE:FREQ=MONTHLY'', ''Monthly''),
      (''RRULE:FREQ=YEARLY'', ''Yearly'')]"

definition google_calendar_days :: "string \<rightharpoonup> string" where
  "google_calendar_days = map_of
     [(''MO'', ''monday''),
      (''TU'', ''tuesday''),
      (''WE'', ''wednesday''),
      (''TH'', ''thursday''),
      (''FR'', ''friday''),
      (''SA'', ''saturday''),
      (''SU'', ''sunday'')]"

text \<open>
  \<^verbatim>\<open>framework_frequencies\<close> is a module global whose values are dictionaries; this is its
  value when the module is loaded. The functions below take the current value and return
  the new one.
\<close>

definition framework_frequencies :: "string \<rightharpoonup> pydict" where
  "framework_frequencies = map_of
     [(''Daily'', [''FREQ'' \<mapsto> VStr ''DAILY'']),
      (''Weekly'', [''FREQ'' \<mapsto> VStr ''WEEKLY'']),
      (''Monthly'', [''FREQ'' \<mapsto> VStr ''MONTHLY'']),
      (''Yearly'', [''FREQ'' \<mapsto> VStr ''FREQ=YEARLY''])]"

definition framework_days :: "string \<rightharpoonup> string" where
  "framework_days = map_of
     [(''monday'', ''MO''),
      (''tuesday'', ''TU''),
      (''wednesday'', ''WE''),
      (''thursday'', ''TH''),
      (''friday'', ''FR''),
      (''saturday'', ''SA''),
      (''sunday'', ''SU'')]"

section \<open>What the module takes from \<^verbatim>\<open>frappe.utils\<close>\<close>

text \<open>
  The current time and \<^verbatim>\<open>get_datetime\<close> are read from the environment:
  \<^verbatim>\<open>frappe.utils\<close> is not among the sources, so both are parameters.
\<close>

record env =
  now_datetime :: datetime
  get_datetime :: "datetime option \<Rightarrow> datetime"

text \<open>
  Modelled from the spec: \<^verbatim>\<open>frappe.utils.get_weekdays\<close> is not among the sources; the spec
  (4.3) has the weekday-name table in Monday-first order.
\<close>

definition get_weekdays :: "string list" where
  "get_weekdays =
     [''Monday'', ''Tuesday'', ''Wednesday'', ''Thursday'', ''Friday'', ''Saturday'', ''Sunday'']"

text \<open>\<^verbatim>\<open>getdate(d)\<close> of a datetime: its date, at midnight and without a time zone.\<close>

definition getdate :: "datetime \<Rightarrow> datetime" where
  "getdate d = d\<lparr>hour := 0, minute := 0, second := 0, microsecond := 0, tzinfo := None\<rparr>"

section \<open>\<^verbatim>\<open>get_recurrence_parameters\<close>\<close>

text \<open>
  \<^verbatim>\<open>for r in recurrence: if "FREQ" in r: frequency = r elif "UNTIL" in r: until = r
  elif "BYDAY" in r: byday = r else: pass\<close>
\<close>

fun recurrence_loop ::
  "string list \<Rightarrow> string option \<times> string option \<times> string option
    \<Rightarrow> string option \<times> string option \<times> string option" where
  "recurrence_loop [] acc = acc"
| "recurrence_loop (r # rs) (frequency, until, byday) =
     recurrence_loop rs
       (if str_in ''FREQ'' r then (Some r, until, byday)
        else if str_in ''UNTIL'' r then (frequency, Some r, byday)
        else if str_in ''BYDAY'' r then (frequency, until, Some r)
        else (frequency, until, byday))"

definition get_recurrence_parameters ::
  "string list \<Rightarrow> string option \<times> string option \<times> string option" where
  "get_recurrence_parameters recurrence = recurrence_loop recurrence (None, None, None)"

section \<open>\<^verbatim>\<open>parse_google_calendar_recurrence_rule\<close>\<close>

text \<open>
  The first loop moves day by day until the weekday name of the current date is the name
  asked for; the second moves week by week until the week number is the one asked for.
  Neither has a bound in the source, so each is a partial function: \<open>None\<close> is a loop that
  does not return.
\<close>

partial_function (option) align_day_name :: "string option \<Rightarrow> datetime \<Rightarrow> datetime option" where
  "align_day_name repeat_day_name current_date =
     (if Some (lower (get_weekdays ! nat (weekday current_date))) = repeat_day_name
      then Some current_date
      else align_day_name repeat_day_name (add_days current_date 1))"

partial_function (option) align_week_number :: "int \<Rightarrow> datetime \<Rightarrow> datetime option" where
  "align_week_number repeat_day_week_number current_date =
     (let week_number = get_week_number current_date
      in if week_number = repeat_day_week_number then Some current_date
         else align_week_number repeat_day_week_number
                (add_weeks current_date (if week_number < repeat_day_week_number then 1 else -1)))"

definition parse_google_calendar_recurrence_rule ::
  "env \<Rightarrow> int \<Rightarrow> string option \<Rightarrow> datetime option" where
  "parse_google_calendar_recurrence_rule e repeat_day_week_number repeat_day_name =
     (let n = (if repeat_day_week_number < 0 then 4 else repeat_day_week_number)
      in case align_day_name repeat_day_name (now_datetime e) of
           None \<Rightarrow> None
         | Some current_date \<Rightarrow> align_week_number n current_date)"

section \<open>\<^verbatim>\<open>google_calendar_to_repeat_on\<close>\<close>

definition seed_repeat_on :: "env \<Rightarrow> datetime option \<Rightarrow> datetime option \<Rightarrow> pydict" where
  "seed_repeat_on e start end =
     (let starts_on = (get_datetime e start)\<lparr>tzinfo := None\<rparr>;
          ends_on = (get_datetime e end)\<lparr>tzinfo := None\<rparr>
      in map_of
        [(''starts_on'', VDatetime starts_on),
         (''ends_on'', VDatetime ends_on),
         (''all_day'', VInt (if end \<noteq> None then 0 else 1)),
         (''repeat_this_event'', VInt (if end \<noteq> None then 1 else 0)),
         (''repeat_on'', VNone),
         (''repeat_till'', VNone),
         (''sunday'', VInt 0),
         (''monday'', VInt 0),
         (''tuesday'', VInt 0),
         (''wednesday'', VInt 0),
         (''thursday'', VInt 0),
         (''friday'', VInt 0),
         (''saturday'', VInt 0)])"

text \<open>\<^verbatim>\<open>google_calendar_frequencies.get(google_calendar_frequency)\<close>\<close>

definition frequency_lookup :: "string option \<Rightarrow> pyval" where
  "frequency_lookup google_calendar_frequency =
     (case google_calendar_frequency of
        None \<Rightarrow> VNone
      | Some f \<Rightarrow> opt_str (google_calendar_frequencies f))"

definition daily_branch :: "string option \<Rightarrow> pydict \<Rightarrow> pydict" where
  "daily_branch until repeat_on =
     (if repeat_on ''repeat_on'' = Some (VStr ''Daily'')
      then repeat_on(''ends_on'' \<mapsto> VNone, ''repeat_till'' \<mapsto> opt_str until)
      else repeat_on)"

text \<open>\<^verbatim>\<open>for repeat_day in byday: repeat_on[google_calendar_days[repeat_day]] = 1\<close>\<close>

fun set_days :: "string list \<Rightarrow> pydict \<Rightarrow> py_error + pydict" where
  "set_days [] repeat_on = Inr repeat_on"
| "set_days (repeat_day # rest) repeat_on =
     (case google_calendar_days repeat_day of
        None \<Rightarrow> Inl KeyError
      | Some name \<Rightarrow> set_days rest (repeat_on(name \<mapsto> VInt 1)))"

text \<open>\<^verbatim>\<open>byday.split("=")[1]\<close>\<close>

definition byday_value :: "string \<Rightarrow> py_error + string" where
  "byday_value byday =
     (case split_on CHR ''='' byday of
        _ # v # _ \<Rightarrow> Inr v
      | _ \<Rightarrow> Inl IndexError)"

definition weekly_branch ::
  "string option \<Rightarrow> string option \<Rightarrow> pydict \<Rightarrow> py_error + pydict" where
  "weekly_branch until byday repeat_on =
     (case byday of
        None \<Rightarrow> Inr repeat_on
      | Some b \<Rightarrow>
          if b \<noteq> [] \<and> repeat_on ''repeat_on'' = Some (VStr ''Weekly'') then
            (case byday_value b of
               Inl err \<Rightarrow> Inl err
             | Inr v \<Rightarrow> set_days (split_on CHR '','' v)
                          (repeat_on(''repeat_till'' \<mapsto> opt_str until)))
          else Inr repeat_on)"

definition week_number_candidates :: "string list" where
  "week_number_candidates = [''-2'', ''-1'', ''1'', ''2'', ''3'', ''4'', ''5'']"

definition day_candidates :: "string list" where
  "day_candidates = [''MO'', ''TU'', ''WE'', ''TH'', ''FR'', ''SA'', ''SU'']"

definition monthly_branch ::
  "env \<Rightarrow> string option \<Rightarrow> string option \<Rightarrow> pydict \<Rightarrow> (py_error + pydict) option" where
  "monthly_branch e until byday repeat_on =
     (case byday of
        None \<Rightarrow> Some (Inr repeat_on)
      | Some b \<Rightarrow>
          if b \<noteq> [] \<and> repeat_on ''repeat_on'' = Some (VStr ''Monthly'') then
            (case byday_value b of
               Inl err \<Rightarrow> Some (Inl err)
             | Inr v \<Rightarrow>
                 (let repeat_day_week_number = find (\<lambda>num. str_in num v) week_number_candidates;
                      repeat_day_name =
                        (case find (\<lambda>code. str_in code v) day_candidates of
                           None \<Rightarrow> None
                         | Some code \<Rightarrow> google_calendar_days code)
                  in case py_int repeat_day_week_number of
                       Inl err \<Rightarrow> Some (Inl err)
                     | Inr n \<Rightarrow>
                         (case parse_google_calendar_recurrence_rule e n repeat_day_name of
                            None \<Rightarrow> None
                          | Some start_date \<Rightarrow>
                              Some (Inr (repeat_on
                                (''starts_on'' \<mapsto> VDatetime start_date,
                                 ''ends_on'' \<mapsto> VDatetime (add_minutes start_date 5),
                                 ''repeat_till'' \<mapsto> opt_str until))))))
          else Some (Inr repeat_on))"

text \<open>The last test of the function: \<^verbatim>\<open>if repeat_on["repeat_till"] == "Yearly"\<close>.\<close>

definition yearly_guard :: "pydict \<Rightarrow> bool" where
  "yearly_guard repeat_on = (repeat_on ''repeat_till'' = Some (VStr ''Yearly''))"

definition yearly_branch :: "string option \<Rightarrow> pydict \<Rightarrow> pydict" where
  "yearly_branch until repeat_on =
     (if yearly_guard repeat_on
      then repeat_on(''ends_on'' \<mapsto> VNone, ''repeat_till'' \<mapsto> opt_str until)
      else repeat_on)"

text \<open>
  The dictionary as it reaches the last test, with the \<^verbatim>\<open>until\<close> of the recurrence
  (\<open>None\<close> of the option: the Monthly solver does not return; \<open>Inl\<close>: an exception).
\<close>

definition before_yearly ::
  "env \<Rightarrow> datetime option \<Rightarrow> datetime option \<Rightarrow> string list
    \<Rightarrow> (py_error + string option \<times> pydict) option" where
  "before_yearly e start end recurrence =
     (case get_recurrence_parameters recurrence of
        (google_calendar_frequency, until, byday) \<Rightarrow>
          (let r1 = (seed_repeat_on e start end)
                      (''repeat_on'' \<mapsto> frequency_lookup google_calendar_frequency);
               r2 = daily_branch until r1
           in case weekly_branch until byday r2 of
                Inl err \<Rightarrow> Some (Inl err)
              | Inr r3 \<Rightarrow>
                  (case monthly_branch e until byday r3 of
                     None \<Rightarrow> None
                   | Some (Inl err) \<Rightarrow> Some (Inl err)
                   | Some (Inr r4) \<Rightarrow> Some (Inr (until, r4)))))"

definition google_calendar_to_repeat_on ::
  "env \<Rightarrow> datetime option \<Rightarrow> datetime option \<Rightarrow> string list option
    \<Rightarrow> (py_error + pydict) option" where
  "google_calendar_to_repeat_on e start end recurrence =
     (case recurrence of
        None \<Rightarrow> Some (Inr (seed_repeat_on e start end))
      | Some [] \<Rightarrow> Some (Inr (seed_repeat_on e start end))
      | Some (r # rs) \<Rightarrow>
          (case before_yearly e start end (r # rs) of
             None \<Rightarrow> None
           | Some (Inl err) \<Rightarrow> Some (Inl err)
           | Some (Inr (until, r4)) \<Rightarrow> Some (Inr (yearly_branch until r4))))"

section \<open>\<^verbatim>\<open>repeat_on_to_google_calendar_recurrence_rule\<close>\<close>

text \<open>The fields of the event document that the function reads.\<close>

record event_doc =
  repeat_on :: "string option"
  starts_on :: datetime
  repeat_till :: "datetime option"
  weekday_flags :: pydict

text \<open>
  \<^verbatim>\<open>recurrence = framework_frequencies.get(doc.repeat_on)\<close> is the dictionary stored in the
  global table, not a copy: \<^verbatim>\<open>recurrence[k] = v\<close> writes into the table entry. With no entry
  \<^verbatim>\<open>recurrence\<close> is \<^verbatim>\<open>None\<close> and the assignment raises TypeError.
\<close>

definition recurrence_setitem ::
  "string option \<Rightarrow> string \<Rightarrow> pyval \<Rightarrow> (string \<rightharpoonup> pydict) \<Rightarrow> py_error + (string \<rightharpoonup> pydict)" where
  "recurrence_setitem key k v table =
     (case key of
        None \<Rightarrow> Inl TypeError
      | Some name \<Rightarrow>
          (case table name of
             None \<Rightarrow> Inl TypeError
           | Some recurrence \<Rightarrow> Inr (table(name \<mapsto> recurrence(k \<mapsto> v)))))"

definition recurrence_byday ::
  "env \<Rightarrow> event_doc \<Rightarrow> (string \<rightharpoonup> pydict) \<Rightarrow> py_error + (string \<rightharpoonup> pydict)" where
  "recurrence_byday e doc table =
     (let weekdays = get_weekdays in
      if repeat_on doc = Some ''Weekly'' then
        (let byday = map (\<lambda>name. opt_str (framework_days (lower name)))
                       (filter (\<lambda>name. truthy (weekday_flags doc (lower name))) weekdays)
         in recurrence_setitem (repeat_on doc) ''BYDAY'' (VList byday) table)
      else if repeat_on doc = Some ''Monthly'' then
        (let week_number = str_int (get_week_number (get_datetime e (Some (starts_on doc))));
             week_day = lower (weekdays ! nat (weekday (get_datetime e (Some (starts_on doc)))))
         in case framework_days week_day of
              None \<Rightarrow> Inl TypeError
            | Some code \<Rightarrow>
                recurrence_setitem (repeat_on doc) ''BYDAY'' (VStr (week_number @ code)) table)
      else Inr table)"

text \<open>The result is the returned dictionary (or \<^verbatim>\<open>None\<close>) and the table after the call.\<close>

definition repeat_on_to_google_calendar_recurrence_rule ::
  "env \<Rightarrow> (string \<rightharpoonup> pydict) \<Rightarrow> event_doc
    \<Rightarrow> py_error + (pydict option \<times> (string \<rightharpoonup> pydict))" where
  "repeat_on_to_google_calendar_recurrence_rule e table doc =
     (case recurrence_byday e doc table of
        Inl err \<Rightarrow> Inl err
      | Inr t1 \<Rightarrow>
          (case (case repeat_till doc of
                   None \<Rightarrow> Inr t1
                 | Some d \<Rightarrow>
                     recurrence_setitem (repeat_on doc) ''UNTIL'' (VDatetime (getdate d)) t1) of
             Inl err \<Rightarrow> Inl err
           | Inr t2 \<Rightarrow>
               Inr (case repeat_on doc of None \<Rightarrow> None | Some name \<Rightarrow> t2 name, t2)))"

text \<open>A sample environment and sample dates for worked examples.\<close>

definition sample_now :: datetime where
  "sample_now = \<lparr>year = 2026, month = 11, day = 4, hour = 9, minute = 30, second = 0,
     microsecond = 0, tzinfo = None\<rparr>"

definition sample_get_datetime :: "datetime option \<Rightarrow> datetime" where
  "sample_get_datetime x = (case x of None \<Rightarrow> sample_now | Some d \<Rightarrow> d)"

definition sample_env :: env where
  "sample_env = \<lparr>now_datetime = sample_now, get_datetime = sample_get_datetime\<rparr>"

definition sample_start :: datetime where
  "sample_start = \<lparr>year = 2024, month = 12, day = 2, hour = 10, minute = 0, second = 0,
     microsecond = 0, tzinfo = Some ''UTC''\<rparr>"

definition sample_end :: datetime where
  "sample_end = \<lparr>year = 2024, month = 12, day = 2, hour = 11, minute = 0, second = 0,
     microsecond = 0, tzinfo = Some ''UTC''\<rparr>"

section \<open>Notions used in the statements\<close>

text \<open>The three tests of the loop of \<open>get_recurrence_parameters\<close>, in the order of its branches.\<close>

definition is_freq :: "string \<Rightarrow> bool" where
  "is_freq r = str_in ''FREQ'' r"

definition is_until :: "string \<Rightarrow> bool" where
  "is_until r = (\<not> str_in ''FREQ'' r \<and> str_in ''UNTIL'' r)"

definition is_byday :: "string \<Rightarrow> bool" where
  "is_byday r = (\<not> str_in ''FREQ'' r \<and> \<not> str_in ''UNTIL'' r \<and> str_in ''BYDAY'' r)"

text \<open>A field of the dictionary a call returned (\<open>None\<close> when it did not return one).\<close>

definition result_field :: "(py_error + pydict) option \<Rightarrow> string \<Rightarrow> pyval option" where
  "result_field res k = (case res of Some (Inr r) \<Rightarrow> r k | _ \<Rightarrow> None)"

definition rule_field ::
  "py_error + (pydict option \<times> (string \<rightharpoonup> pydict)) \<Rightarrow> string \<Rightarrow> pyval option" where
  "rule_field res k = (case res of Inr (Some r, _) \<Rightarrow> r k | _ \<Rightarrow> None)"

definition rule_table ::
  "py_error + (pydict option \<times> (string \<rightharpoonup> pydict)) \<Rightarrow> (string \<rightharpoonup> pydict) \<Rightarrow> string \<rightharpoonup> pydict" where
  "rule_table res before = (case res of Inr (_, after) \<Rightarrow> after | Inl _ \<Rightarrow> before)"

text \<open>A field of the dictionary stored in the table under a frequency name.\<close>

definition table_field :: "(string \<rightharpoonup> pydict) \<Rightarrow> string \<Rightarrow> string \<Rightarrow> pyval option" where
  "table_field table name k = (case table name of None \<Rightarrow> None | Some d \<Rightarrow> d k)"


text \<open>Two sample documents: daily events, with and without an end of the repetition.\<close>

definition sample_doc_till :: event_doc where
  "sample_doc_till = \<lparr>repeat_on = Some ''Daily'', starts_on = sample_start,
     repeat_till = Some sample_end, weekday_flags = Map.empty\<rparr>"

definition sample_doc :: event_doc where
  "sample_doc = \<lparr>repeat_on = Some ''Daily'', starts_on = sample_start,
     repeat_till = None, weekday_flags = Map.empty\<rparr>"

definition sample_doc_hourly :: event_doc where
  "sample_doc_hourly = \<lparr>repeat_on = Some ''Hourly'', starts_on = sample_start,
     repeat_till = None, weekday_flags = Map.empty\<rparr>"

section \<open>Notions used in the proofs\<close>



section \<open>Calendar lemmas\<close>

lemma weekday_range: "0 \<le> weekday dt \<and> weekday dt \<le> 6"
  by (simp add: weekday_def)

lemma month_cases:
  assumes "1 \<le> (m::int)" "m \<le> 12"
  shows "m = 1 \<or> m = 2 \<or> m = 3 \<or> m = 4 \<or> m = 5 \<or> m = 6 \<or> m = 7 \<or> m = 8 \<or> m = 9
         \<or> m = 10 \<or> m = 11 \<or> m = 12"
proof -
  from assms have "m \<in> {1..12}" by simp
  also have "{1..12::int} = set [1..12]" by simp
  finally show ?thesis by (simp add: upto.simps)
qed

lemma days_in_month_cases:
  assumes "1 \<le> m" "m \<le> 12"
  shows "days_in_month y m = 28 \<and> m = 2 \<and> \<not> is_leap y
       \<or> days_in_month y m = 29 \<and> m = 2 \<and> is_leap y
       \<or> days_in_month y m = 30 \<and> m \<in> {4, 6, 9, 11}
       \<or> days_in_month y m = 31 \<and> m \<in> {1, 3, 5, 7, 8, 10, 12}"
  using month_cases [OF assms]
  by (elim disjE) (simp_all add: days_in_month_def DAYS_IN_MONTH_def)

lemma days_in_month_bounds:
  assumes "1 \<le> m" "m \<le> 12"
  shows "28 \<le> days_in_month y m \<and> days_in_month y m \<le> 31"
  using days_in_month_cases [OF assms, of y] by auto
















section \<open>The week number formula and its range\<close>

lemma ceiling_div_7: "\<lceil>real_of_int a / 7\<rceil> = (a + 6) div 7"
proof -
  have "\<lceil>real_of_int a / real_of_int 7\<rceil> = - ((- a) div 7)"
    by (rule ceiling_divide_eq_div)
  also have "\<dots> = (a + 6) div 7" by linarith
  finally show ?thesis by simp
qed

lemma week_number_bounds:
  "0 \<le> w \<Longrightarrow> w \<le> 6 \<Longrightarrow> 1 \<le> d \<Longrightarrow> d \<le> 31
    \<Longrightarrow> 1 \<le> (d + w + 6) div 7 \<and> (d + w + 6) div (7::int) \<le> 6"
  by linarith

text \<open>
  C2 (as amended). For every valid date, \<open>get_week_number\<close> is the ceiling of
  (day of month + weekday of the first of the month) / 7, and it lies between 1 and 6.
\<close>

theorem get_week_number_ceiling:
  assumes "valid_date dt"
  shows "get_week_number dt =
           \<lceil>(real_of_int (day dt) + real_of_int (weekday (dt\<lparr>day := 1\<rparr>))) / 7\<rceil>
         \<and> 1 \<le> get_week_number dt \<and> get_week_number dt \<le> 6"
proof -
  let ?a = "day dt + weekday (dt\<lparr>day := 1\<rparr>)"
  have w: "0 \<le> weekday (dt\<lparr>day := 1\<rparr>)" "weekday (dt\<lparr>day := 1\<rparr>) \<le> 6"
    using weekday_range by auto
  have d: "1 \<le> day dt" "day dt \<le> 31"
    using assms days_in_month_bounds [of "month dt" "year dt"]
    by (auto simp: valid_date_def)
  have g: "get_week_number dt = (?a + 6) div 7"
    by (simp add: get_week_number_def Let_def)
  have c': "\<lceil>(real_of_int (day dt) + real_of_int (weekday (dt\<lparr>day := 1\<rparr>))) / 7\<rceil>
              = \<lceil>real_of_int ?a / 7\<rceil>"
    by simp
  have r: "1 \<le> (?a + 6) div 7 \<and> (?a + 6) div 7 \<le> 6"
    using w d by (rule week_number_bounds)
  have "get_week_number dt =
          \<lceil>(real_of_int (day dt) + real_of_int (weekday (dt\<lparr>day := 1\<rparr>))) / 7\<rceil>"
    by (simp only: g ceiling_div_7 c')
  moreover have "1 \<le> get_week_number dt \<and> get_week_number dt \<le> 6"
    by (simp only: g r)
  ultimately show ?thesis by (rule conjI)
qed

theorem get_week_number_ceiling_witness:
  "valid_date sample_now
   \<and> get_week_number sample_now =
       \<lceil>(real_of_int (day sample_now) + real_of_int (weekday (sample_now\<lparr>day := 1\<rparr>))) / 7\<rceil>
   \<and> 1 \<le> get_week_number sample_now \<and> get_week_number sample_now \<le> 6"
proof -
  have v: "valid_date sample_now" by code_simp
  show ?thesis by (rule conjI [OF v get_week_number_ceiling [OF v]])
qed

theorem get_week_number_six:
  "valid_date \<lparr>year = 2023, month = 1, day = 30, hour = 0, minute = 0, second = 0,
       microsecond = 0, tzinfo = None\<rparr>
   \<and> get_week_number \<lparr>year = 2023, month = 1, day = 30, hour = 0, minute = 0, second = 0,
       microsecond = 0, tzinfo = None\<rparr> = 6"
  by code_simp

section \<open>Moving by several days\<close>








section \<open>Week numbers along a walk by weeks\<close>







lemma week_same_month_up:
  "(d + 7 + f + 6) div 7 = (d + f + 6) div (7::int) + 1"
  by simp







section \<open>The week loop\<close>










section \<open>Every year has a month that starts on Monday, and one with a late fifth week\<close>







section \<open>Week numbers 1 and 5: the walk may leave the month\<close>





section \<open>The day loop and the solver\<close>













section \<open>Termination of the solver\<close>





section \<open>The recurrence parameters\<close>

lemma find_append:
  "find P (xs @ ys) = (case find P xs of None \<Rightarrow> find P ys | Some x \<Rightarrow> Some x)"
  by (induction xs) auto

lemma recurrence_loop_find:
  "recurrence_loop rs (f, u, b) =
     (case find is_freq (rev rs) of None \<Rightarrow> f | Some x \<Rightarrow> Some x,
      case find is_until (rev rs) of None \<Rightarrow> u | Some x \<Rightarrow> Some x,
      case find is_byday (rev rs) of None \<Rightarrow> b | Some x \<Rightarrow> Some x)"
proof (induction rs arbitrary: f u b)
  case Nil
  then show ?case by simp
next
  case (Cons r rs)
  show ?case
    by (simp add: Cons find_append is_freq_def is_until_def is_byday_def
          split: option.splits)
qed

lemma get_recurrence_parameters_find:
  "get_recurrence_parameters rs =
     (find is_freq (rev rs), find is_until (rev rs), find is_byday (rev rs))"
  by (simp add: get_recurrence_parameters_def recurrence_loop_find split: option.splits)

lemma find_rev_filter:
  "(\<And>x. P x \<Longrightarrow> Q x) \<Longrightarrow> find P (rev (filter Q xs)) = find P (rev xs)"
  by (induction xs) (auto simp: find_append split: option.splits)

lemma get_recurrence_parameters_until:
  assumes "get_recurrence_parameters rs = (f, Some u, b)"
  shows "str_in ''UNTIL'' u"
proof -
  from assms have "find is_until (rev rs) = Some u"
    by (simp add: get_recurrence_parameters_find)
  then have "is_until u" by (auto simp: find_Some_iff)
  then show ?thesis by (simp add: is_until_def)
qed

lemma get_recurrence_parameters_nonempty:
  assumes "get_recurrence_parameters rs = (Some f, u, b)"
  shows "rs \<noteq> []"
  using assms by (auto simp: get_recurrence_parameters_def)

text \<open>
  C4 (as amended). For each of the keys FREQ, UNTIL and BYDAY, \<open>get_recurrence_parameters\<close>
  returns the last token in list order that the loop files under that key (a token is
  filed under the first of FREQ, UNTIL, BYDAY that occurs in it), and tokens with none of
  the three keys make no difference.
\<close>

theorem get_recurrence_parameters_last_match:
  "get_recurrence_parameters recurrence =
     (find is_freq (rev recurrence), find is_until (rev recurrence),
      find is_byday (rev recurrence))
   \<and> get_recurrence_parameters
        (filter (\<lambda>r. str_in ''FREQ'' r \<or> str_in ''UNTIL'' r \<or> str_in ''BYDAY'' r) recurrence)
       = get_recurrence_parameters recurrence"
proof -
  let ?Q = "\<lambda>r. str_in ''FREQ'' r \<or> str_in ''UNTIL'' r \<or> str_in ''BYDAY'' r"
  have "find is_freq (rev (filter ?Q recurrence)) = find is_freq (rev recurrence)"
    by (rule find_rev_filter) (simp add: is_freq_def)
  moreover have "find is_until (rev (filter ?Q recurrence)) = find is_until (rev recurrence)"
    by (rule find_rev_filter) (simp add: is_until_def)
  moreover have "find is_byday (rev (filter ?Q recurrence)) = find is_byday (rev recurrence)"
    by (rule find_rev_filter) (simp add: is_byday_def)
  ultimately show ?thesis by (simp add: get_recurrence_parameters_find)
qed

theorem get_recurrence_parameters_last_match_witness:
  "get_recurrence_parameters [''RRULE:FREQ=WEEKLY'', ''WKST=SU'', ''BYDAY=MO'', ''BYDAY=FR'']
     = (Some ''RRULE:FREQ=WEEKLY'', None, Some ''BYDAY=FR'')"
proof -
  have "find is_freq (rev [''RRULE:FREQ=WEEKLY'', ''WKST=SU'', ''BYDAY=MO'', ''BYDAY=FR''])
          = Some ''RRULE:FREQ=WEEKLY''"
    by (simp add: is_freq_def)
  moreover
  have "find is_until (rev [''RRULE:FREQ=WEEKLY'', ''WKST=SU'', ''BYDAY=MO'', ''BYDAY=FR''])
          = None"
    by (simp add: is_until_def)
  moreover
  have "find is_byday (rev [''RRULE:FREQ=WEEKLY'', ''WKST=SU'', ''BYDAY=MO'', ''BYDAY=FR''])
          = Some ''BYDAY=FR''"
    by (simp add: is_byday_def)
  ultimately show ?thesis
    using get_recurrence_parameters_last_match
            [of "[''RRULE:FREQ=WEEKLY'', ''WKST=SU'', ''BYDAY=MO'', ''BYDAY=FR'']"]
    by simp
qed

text \<open>The first FREQ token does not win: with two of them the result is the second.\<close>

theorem get_recurrence_parameters_second_wins:
  "get_recurrence_parameters [''RRULE:FREQ=DAILY'', ''RRULE:FREQ=WEEKLY'']
     = (Some ''RRULE:FREQ=WEEKLY'', None, None)"
  by (simp add: get_recurrence_parameters_def)

section \<open>The branches of \<open>google_calendar_to_repeat_on\<close>\<close>

lemma google_calendar_days_names:
  assumes "google_calendar_days code = Some name"
  shows "name \<in> {''monday'', ''tuesday'', ''wednesday'', ''thursday'', ''friday'',
                  ''saturday'', ''sunday''}"
  using assms by (auto simp: google_calendar_days_def split: if_splits)


lemma set_days_frame:
  assumes "set_days codes r = Inr r'"
    and "k \<notin> {''monday'', ''tuesday'', ''wednesday'', ''thursday'', ''friday'',
                ''saturday'', ''sunday''}"
  shows "r' k = r k"
  using assms(1)
proof (induction codes arbitrary: r)
  case Nil
  then show ?case by simp
next
  case (Cons c cs)
  then obtain name where n: "google_calendar_days c = Some name"
    and s: "set_days cs (r(name \<mapsto> VInt 1)) = Inr r'"
    by (auto split: option.splits)
  from google_calendar_days_names [OF n] assms(2) have "name \<noteq> k" by blast
  with Cons.IH [OF s] show ?case by simp
qed



lemma set_days_KeyError:
  assumes "c \<in> set codes" "google_calendar_days c = None"
  shows "set_days codes r = Inl KeyError"
  using assms by (induction codes arbitrary: r) (auto split: option.splits)

lemma weekly_branch_frame:
  assumes "weekly_branch until byday r = Inr r'"
    and "k \<notin> {''monday'', ''tuesday'', ''wednesday'', ''thursday'', ''friday'',
                ''saturday'', ''sunday''}"
  shows "r' k = r k \<or> k = ''repeat_till'' \<and> r' k = Some (opt_str until)"
proof (cases "\<exists>b. byday = Some b \<and> b \<noteq> [] \<and> r ''repeat_on'' = Some (VStr ''Weekly'')")
  case False
  with assms(1) have "r' = r" by (auto simp: weekly_branch_def split: option.splits)
  then show ?thesis by simp
next
  case True
  then obtain b where b: "byday = Some b" "b \<noteq> []" "r ''repeat_on'' = Some (VStr ''Weekly'')"
    by blast
  with assms(1) obtain v where
    s: "set_days (split_on CHR '','' v) (r(''repeat_till'' \<mapsto> opt_str until)) = Inr r'"
    by (auto simp: weekly_branch_def split: sum.splits)
  from set_days_frame [OF s assms(2)] show ?thesis by (cases "k = ''repeat_till''") simp_all
qed

lemma monthly_branch_frame:
  assumes "monthly_branch e until byday r = Some (Inr r')"
  shows "r' k = r k \<or> k = ''repeat_till'' \<and> r' k = Some (opt_str until)
         \<or> k = ''starts_on'' \<or> k = ''ends_on''"
proof (cases "\<exists>b. byday = Some b \<and> b \<noteq> [] \<and> r ''repeat_on'' = Some (VStr ''Monthly'')")
  case False
  with assms have "r' = r" by (auto simp: monthly_branch_def split: option.splits)
  then show ?thesis by simp
next
  case True
  then obtain b where b: "byday = Some b" "b \<noteq> []" "r ''repeat_on'' = Some (VStr ''Monthly'')"
    by blast
  with assms obtain start_date where
    "r' = r(''starts_on'' \<mapsto> VDatetime start_date,
            ''ends_on'' \<mapsto> VDatetime (add_minutes start_date 5),
            ''repeat_till'' \<mapsto> opt_str until)"
    by (auto simp: monthly_branch_def Let_def split: sum.splits option.splits)
  then show ?thesis by simp
qed

lemma daily_branch_frame:
  "daily_branch until r k = r k \<or> k = ''repeat_till'' \<and> daily_branch until r k = Some (opt_str until)
   \<or> k = ''ends_on''"
  by (simp add: daily_branch_def)

lemma until_not_Yearly:
  assumes "get_recurrence_parameters rs = (f, until, b)"
  shows "opt_str until \<noteq> VStr ''Yearly''"
proof (cases until)
  case None
  then show ?thesis by (simp add: opt_str_def)
next
  case (Some u)
  with assms have "str_in ''UNTIL'' u" by (simp add: get_recurrence_parameters_until)
  moreover have "\<not> str_in ''UNTIL'' ''Yearly''" by simp
  ultimately have "u \<noteq> ''Yearly''" by blast
  with Some show ?thesis by (simp add: opt_str_def)
qed

lemma seed_repeat_on_fields:
  "seed_repeat_on e start end ''starts_on'' = Some (VDatetime ((get_datetime e start)\<lparr>tzinfo := None\<rparr>))"
  "seed_repeat_on e start end ''ends_on'' = Some (VDatetime ((get_datetime e end)\<lparr>tzinfo := None\<rparr>))"
  "seed_repeat_on e start end ''all_day'' = Some (VInt (if end = None then 1 else 0))"
  "seed_repeat_on e start end ''repeat_this_event'' = Some (VInt (if end = None then 0 else 1))"
  "seed_repeat_on e start end ''repeat_on'' = Some VNone"
  "seed_repeat_on e start end ''repeat_till'' = Some VNone"
  by (simp_all add: seed_repeat_on_def Let_def)


text \<open>The dictionary as it reaches the last test.\<close>

lemma before_yearly_fields:
  assumes "before_yearly e start end rs = Some (Inr (until, r))"
  shows "(r ''repeat_till'' = Some VNone \<or> r ''repeat_till'' = Some (opt_str until))
       \<and> opt_str until \<noteq> VStr ''Yearly''
       \<and> r ''all_day'' = seed_repeat_on e start end ''all_day''
       \<and> r ''repeat_this_event'' = seed_repeat_on e start end ''repeat_this_event''"
proof -
  obtain f u b where g: "get_recurrence_parameters rs = (f, u, b)"
    by (cases "get_recurrence_parameters rs") auto
  let ?r1 = "(seed_repeat_on e start end)(''repeat_on'' \<mapsto> frequency_lookup f)"
  let ?r2 = "daily_branch u ?r1"
  from assms g obtain r3 where
    w: "weekly_branch u b ?r2 = Inr r3" and m: "monthly_branch e u b r3 = Some (Inr r)"
    and un: "until = u"
    by (auto simp: before_yearly_def Let_def split: sum.splits option.splits)
  have n: "opt_str until \<noteq> VStr ''Yearly''" using until_not_Yearly [OF g] un by simp
  have t1: "?r1 ''repeat_till'' = Some VNone" "?r1 ''all_day'' = seed_repeat_on e start end ''all_day''"
    "?r1 ''repeat_this_event'' = seed_repeat_on e start end ''repeat_this_event''"
    by (simp_all add: seed_repeat_on_fields)
  have t2: "?r2 ''repeat_till'' = Some VNone \<or> ?r2 ''repeat_till'' = Some (opt_str u)"
    "?r2 ''all_day'' = seed_repeat_on e start end ''all_day''"
    "?r2 ''repeat_this_event'' = seed_repeat_on e start end ''repeat_this_event''"
    using daily_branch_frame [of u ?r1 "''repeat_till''"]
      daily_branch_frame [of u ?r1 "''all_day''"]
      daily_branch_frame [of u ?r1 "''repeat_this_event''"] t1
    by auto
  have t3: "r3 ''repeat_till'' = Some VNone \<or> r3 ''repeat_till'' = Some (opt_str u)"
    "r3 ''all_day'' = seed_repeat_on e start end ''all_day''"
    "r3 ''repeat_this_event'' = seed_repeat_on e start end ''repeat_this_event''"
    using weekly_branch_frame [OF w, of "''repeat_till''"]
      weekly_branch_frame [OF w, of "''all_day''"]
      weekly_branch_frame [OF w, of "''repeat_this_event''"] t2
    by auto
  have t4: "r ''repeat_till'' = Some VNone \<or> r ''repeat_till'' = Some (opt_str u)"
    "r ''all_day'' = seed_repeat_on e start end ''all_day''"
    "r ''repeat_this_event'' = seed_repeat_on e start end ''repeat_this_event''"
    using monthly_branch_frame [OF m, of "''repeat_till''"]
      monthly_branch_frame [OF m, of "''all_day''"]
      monthly_branch_frame [OF m, of "''repeat_this_event''"] t3
    by auto
  with n un show ?thesis by simp
qed

lemma before_yearly_guard:
  assumes "before_yearly e start end rs = Some (Inr (until, r))"
  shows "\<not> yearly_guard r"
  using before_yearly_fields [OF assms] by (auto simp: yearly_guard_def)

lemma to_repeat_on_before_yearly:
  assumes "rs \<noteq> []"
  shows "google_calendar_to_repeat_on e start end (Some rs) =
     (case before_yearly e start end rs of
        None \<Rightarrow> None
      | Some (Inl err) \<Rightarrow> Some (Inl err)
      | Some (Inr (until, r)) \<Rightarrow> Some (Inr r))"
proof (cases rs)
  case Nil
  with assms show ?thesis by simp
next
  case (Cons x xs)
  show ?thesis
  proof (cases "before_yearly e start end rs")
    case None
    then show ?thesis by (simp add: google_calendar_to_repeat_on_def Cons)
  next
    case (Some res)
    show ?thesis
    proof (cases res)
      case (Inl err)
      with Some show ?thesis by (simp add: google_calendar_to_repeat_on_def Cons)
    next
      case (Inr p)
      obtain until r where p: "p = (until, r)" by (cases p)
      from Some Inr p have b: "before_yearly e start end rs = Some (Inr (until, r))" by simp
      have y: "yearly_branch until r = r"
        using before_yearly_guard [OF b] by (simp add: yearly_branch_def)
      from b y show ?thesis unfolding Cons by (simp add: google_calendar_to_repeat_on_def)
    qed
  qed
qed

section \<open>The translation by frequency\<close>

lemma get_recurrence_parameters_byday:
  assumes "get_recurrence_parameters rs = (f, u, Some b)"
  shows "b \<noteq> []"
proof -
  from assms have "find is_byday (rev rs) = Some b"
    by (simp add: get_recurrence_parameters_find)
  then have "is_byday b" by (auto simp: find_Some_iff)
  then have "str_in ''BYDAY'' b" by (simp add: is_byday_def)
  then show ?thesis by auto
qed

lemma frequency_lookup_Some:
  "google_calendar_frequencies f = Some v \<Longrightarrow> frequency_lookup (Some f) = VStr v"
  by (simp add: frequency_lookup_def opt_str_def)

lemma frequency_lookup_None:
  "google_calendar_frequencies f = None \<Longrightarrow> frequency_lookup (Some f) = VNone"
  by (simp add: frequency_lookup_def opt_str_def)

text \<open>A frequency that is none of Daily, Weekly, Monthly: only \<open>repeat_on\<close> is set.\<close>

lemma before_yearly_plain:
  assumes "get_recurrence_parameters rs = (freq, until, byday)"
    and "frequency_lookup freq \<noteq> VStr ''Daily''"
    and "frequency_lookup freq \<noteq> VStr ''Weekly''"
    and "frequency_lookup freq \<noteq> VStr ''Monthly''"
  shows "before_yearly e start end rs =
     Some (Inr (until, (seed_repeat_on e start end)(''repeat_on'' \<mapsto> frequency_lookup freq)))"
  using assms
  by (simp add: before_yearly_def Let_def daily_branch_def weekly_branch_def
        monthly_branch_def split: option.splits)

lemma before_yearly_daily:
  assumes "get_recurrence_parameters rs = (freq, until, byday)"
    and "frequency_lookup freq = VStr ''Daily''"
  shows "before_yearly e start end rs =
     Some (Inr (until, (seed_repeat_on e start end)
        (''repeat_on'' \<mapsto> VStr ''Daily'', ''ends_on'' \<mapsto> VNone,
         ''repeat_till'' \<mapsto> opt_str until)))"
  using assms
  by (simp add: before_yearly_def Let_def daily_branch_def weekly_branch_def
        monthly_branch_def split: option.splits)

lemma before_yearly_weekly:
  assumes "get_recurrence_parameters rs = (freq, until, Some b)"
    and "frequency_lookup freq = VStr ''Weekly''"
    and "byday_value b = Inr v"
  shows "before_yearly e start end rs =
     (case set_days (split_on CHR '','' v)
             ((seed_repeat_on e start end)
                (''repeat_on'' \<mapsto> VStr ''Weekly'', ''repeat_till'' \<mapsto> opt_str until)) of
        Inl err \<Rightarrow> Some (Inl err)
      | Inr r \<Rightarrow> Some (Inr (until, r)))"
proof -
  have b: "b \<noteq> []" using assms(1) by (rule get_recurrence_parameters_byday)
  let ?r = "(seed_repeat_on e start end)
              (''repeat_on'' \<mapsto> VStr ''Weekly'', ''repeat_till'' \<mapsto> opt_str until)"
  show ?thesis
  proof (cases "set_days (split_on CHR '','' v) ?r")
    case (Inl err)
    with assms b show ?thesis
      by (simp add: before_yearly_def Let_def daily_branch_def weekly_branch_def)
  next
    case (Inr r)
    have k: "''repeat_on'' \<notin> {''monday'', ''tuesday'', ''wednesday'', ''thursday'', ''friday'',
                ''saturday'', ''sunday''}" by simp
    have "r ''repeat_on'' = Some (VStr ''Weekly'')"
      using set_days_frame [OF Inr k] by simp
    with Inr assms b show ?thesis
      by (simp add: before_yearly_def Let_def daily_branch_def weekly_branch_def
            monthly_branch_def)
  qed
qed


section \<open>Seeding\<close>

text \<open>
  C10. For every input on which \<open>google_calendar_to_repeat_on\<close> returns a dictionary,
  \<open>all_day\<close> is 1 exactly when no end is supplied and \<open>repeat_this_event\<close> is 1
  exactly when an end is supplied; the seeds of \<open>starts_on\<close> and \<open>ends_on\<close> are the raw
  start and end passed through \<open>get_datetime\<close>, without time zone, and with no
  recurrence the seeded dictionary is the result.
\<close>

theorem google_calendar_to_repeat_on_seed:
  assumes "google_calendar_to_repeat_on e start end recurrence = Some (Inr r)"
  shows "r ''all_day'' = Some (VInt (if end = None then 1 else 0))
       \<and> r ''repeat_this_event'' = Some (VInt (if end = None then 0 else 1))
       \<and> seed_repeat_on e start end ''starts_on''
           = Some (VDatetime ((get_datetime e start)\<lparr>tzinfo := None\<rparr>))
       \<and> seed_repeat_on e start end ''ends_on''
           = Some (VDatetime ((get_datetime e end)\<lparr>tzinfo := None\<rparr>))
       \<and> google_calendar_to_repeat_on e start end None = Some (Inr (seed_repeat_on e start end))"
proof -
  have s: "google_calendar_to_repeat_on e start end None = Some (Inr (seed_repeat_on e start end))"
    by (simp add: google_calendar_to_repeat_on_def)
  have f: "r ''all_day'' = seed_repeat_on e start end ''all_day''
         \<and> r ''repeat_this_event'' = seed_repeat_on e start end ''repeat_this_event''"
  proof (cases "recurrence = None \<or> recurrence = Some []")
    case True
    with assms have "r = seed_repeat_on e start end"
      by (auto simp: google_calendar_to_repeat_on_def)
    then show ?thesis by simp
  next
    case False
    then obtain rs where rs: "recurrence = Some rs" "rs \<noteq> []" by auto
    from assms obtain until where "before_yearly e start end rs = Some (Inr (until, r))"
      unfolding rs(1) to_repeat_on_before_yearly [OF rs(2)]
      by (auto split: option.splits sum.splits)
    from before_yearly_fields [OF this] show ?thesis by simp
  qed
  with s show ?thesis by (simp add: seed_repeat_on_fields)
qed

theorem google_calendar_to_repeat_on_seed_witness:
  "google_calendar_to_repeat_on sample_env (Some sample_start) None None
     = Some (Inr (seed_repeat_on sample_env (Some sample_start) None))
   \<and> seed_repeat_on sample_env (Some sample_start) None ''all_day'' = Some (VInt 1)
   \<and> seed_repeat_on sample_env (Some sample_start) None ''repeat_this_event'' = Some (VInt 0)"
proof -
  have h: "google_calendar_to_repeat_on sample_env (Some sample_start) None None
     = Some (Inr (seed_repeat_on sample_env (Some sample_start) None))"
    by (simp add: google_calendar_to_repeat_on_def)
  from google_calendar_to_repeat_on_seed [OF h] h show ?thesis by simp
qed

section \<open>The Yearly test\<close>

text \<open>
  C5. Whenever the dictionary reaches the test \<open>repeat_till == "Yearly"\<close>, the test fails:
  \<open>repeat_till\<close> is \<open>None\<close> or the UNTIL token, which contains "UNTIL". So the branch is
  never taken, and a recurrence whose frequency is Yearly returns the seeded dictionary
  with only \<open>repeat_on\<close> set: \<open>ends_on\<close> and \<open>repeat_till\<close> keep their seeds.
\<close>

theorem yearly_branch_never_taken:
  "(before_yearly e start end rs = Some (Inr (until, r)) \<longrightarrow>
      \<not> yearly_guard r
      \<and> (r ''repeat_till'' = Some VNone \<or> r ''repeat_till'' = Some (opt_str until))
      \<and> opt_str until \<noteq> VStr ''Yearly'')
   \<and> (get_recurrence_parameters rs = (Some f, u, byday)
        \<and> google_calendar_frequencies f = Some ''Yearly'' \<longrightarrow>
      google_calendar_to_repeat_on e start end (Some rs)
        = Some (Inr ((seed_repeat_on e start end)(''repeat_on'' \<mapsto> VStr ''Yearly''))))"
proof (intro conjI impI)
  assume b: "before_yearly e start end rs = Some (Inr (until, r))"
  show "\<not> yearly_guard r" using b by (rule before_yearly_guard)
  show "r ''repeat_till'' = Some VNone \<or> r ''repeat_till'' = Some (opt_str until)"
    using before_yearly_fields [OF b] by simp
  show "opt_str until \<noteq> VStr ''Yearly''" using before_yearly_fields [OF b] by simp
next
  assume a: "get_recurrence_parameters rs = (Some f, u, byday)
        \<and> google_calendar_frequencies f = Some ''Yearly''"
  then have g: "get_recurrence_parameters rs = (Some f, u, byday)"
    and l: "frequency_lookup (Some f) = VStr ''Yearly''"
    by (simp_all add: frequency_lookup_Some)
  have ne: "rs \<noteq> []" using g by (rule get_recurrence_parameters_nonempty)
  have "before_yearly e start end rs =
     Some (Inr (u, (seed_repeat_on e start end)(''repeat_on'' \<mapsto> frequency_lookup (Some f))))"
    using g by (rule before_yearly_plain) (simp_all add: l)
  then show "google_calendar_to_repeat_on e start end (Some rs)
        = Some (Inr ((seed_repeat_on e start end)(''repeat_on'' \<mapsto> VStr ''Yearly'')))"
    by (simp add: to_repeat_on_before_yearly [OF ne] l)
qed

theorem yearly_branch_never_taken_witness:
  "before_yearly sample_env (Some sample_start) (Some sample_end)
       [''RRULE:FREQ=YEARLY'', ''UNTIL=20300101T000000Z'']
     = Some (Inr (Some ''UNTIL=20300101T000000Z'',
         (seed_repeat_on sample_env (Some sample_start) (Some sample_end))
           (''repeat_on'' \<mapsto> VStr ''Yearly'')))
   \<and> get_recurrence_parameters [''RRULE:FREQ=YEARLY'', ''UNTIL=20300101T000000Z'']
       = (Some ''RRULE:FREQ=YEARLY'', Some ''UNTIL=20300101T000000Z'', None)
   \<and> google_calendar_frequencies ''RRULE:FREQ=YEARLY'' = Some ''Yearly''
   \<and> \<not> yearly_guard ((seed_repeat_on sample_env (Some sample_start) (Some sample_end))
           (''repeat_on'' \<mapsto> VStr ''Yearly''))
   \<and> google_calendar_to_repeat_on sample_env (Some sample_start) (Some sample_end)
         (Some [''RRULE:FREQ=YEARLY'', ''UNTIL=20300101T000000Z''])
       = Some (Inr ((seed_repeat_on sample_env (Some sample_start) (Some sample_end))
           (''repeat_on'' \<mapsto> VStr ''Yearly'')))"
proof -
  let ?rs = "[''RRULE:FREQ=YEARLY'', ''UNTIL=20300101T000000Z'']"
  let ?r = "(seed_repeat_on sample_env (Some sample_start) (Some sample_end))
           (''repeat_on'' \<mapsto> VStr ''Yearly'')"
  have g: "get_recurrence_parameters ?rs
       = (Some ''RRULE:FREQ=YEARLY'', Some ''UNTIL=20300101T000000Z'', None)"
    by (simp add: get_recurrence_parameters_def)
  have q: "google_calendar_frequencies ''RRULE:FREQ=YEARLY'' = Some ''Yearly''"
    by (simp add: google_calendar_frequencies_def)
  have l: "frequency_lookup (Some ''RRULE:FREQ=YEARLY'') = VStr ''Yearly''"
    using q by (rule frequency_lookup_Some)
  have b: "before_yearly sample_env (Some sample_start) (Some sample_end) ?rs
     = Some (Inr (Some ''UNTIL=20300101T000000Z'', ?r))"
    using before_yearly_plain [OF g, of sample_env "Some sample_start" "Some sample_end"]
    by (simp add: l)
  from yearly_branch_never_taken
    [of sample_env "Some sample_start" "Some sample_end" ?rs "Some ''UNTIL=20300101T000000Z''" ?r
        "''RRULE:FREQ=YEARLY''" "Some ''UNTIL=20300101T000000Z''" None]
    b g q
  show ?thesis by simp
qed

section \<open>Daily recurrences\<close>

lemma to_repeat_on_daily:
  assumes "get_recurrence_parameters rs = (Some f, until, byday)"
    and "google_calendar_frequencies f = Some ''Daily''"
  shows "google_calendar_to_repeat_on e start end (Some rs) =
     Some (Inr ((seed_repeat_on e start end)
        (''repeat_on'' \<mapsto> VStr ''Daily'', ''ends_on'' \<mapsto> VNone,
         ''repeat_till'' \<mapsto> opt_str until)))"
proof -
  have ne: "rs \<noteq> []" using assms(1) by (rule get_recurrence_parameters_nonempty)
  have l: "frequency_lookup (Some f) = VStr ''Daily''"
    using assms(2) by (rule frequency_lookup_Some)
  from before_yearly_daily [OF assms(1) l] show ?thesis
    by (simp add: to_repeat_on_before_yearly [OF ne])
qed

text \<open>
  C7 (the code at the input of the claim). With the tokens RRULE:FREQ=DAILY and
  UNTIL=20250101T000000Z the result has \<open>ends_on = None\<close>, and its \<open>repeat_till\<close> is the
  token itself, the string "UNTIL=20250101T000000Z" with its key: not a date.
\<close>

theorem daily_repeat_till_is_the_token:
  "result_field (google_calendar_to_repeat_on sample_env (Some sample_start) (Some sample_end)
       (Some [''RRULE:FREQ=DAILY'', ''UNTIL=20250101T000000Z''])) ''repeat_till''
     = Some (VStr ''UNTIL=20250101T000000Z'')
   \<and> result_field (google_calendar_to_repeat_on sample_env (Some sample_start) (Some sample_end)
       (Some [''RRULE:FREQ=DAILY'', ''UNTIL=20250101T000000Z''])) ''ends_on''
     = Some VNone
   \<and> result_field (google_calendar_to_repeat_on sample_env (Some sample_start) (Some sample_end)
       (Some [''RRULE:FREQ=DAILY'', ''UNTIL=20250101T000000Z''])) ''repeat_on''
     = Some (VStr ''Daily'')"
proof -
  have g: "get_recurrence_parameters [''RRULE:FREQ=DAILY'', ''UNTIL=20250101T000000Z'']
       = (Some ''RRULE:FREQ=DAILY'', Some ''UNTIL=20250101T000000Z'', None)"
    by (simp add: get_recurrence_parameters_def)
  have q: "google_calendar_frequencies ''RRULE:FREQ=DAILY'' = Some ''Daily''"
    by (simp add: google_calendar_frequencies_def)
  show ?thesis
    unfolding to_repeat_on_daily [OF g q] by (simp add: result_field_def opt_str_def)
qed

section \<open>Weekly recurrences\<close>



section \<open>The time of day along the solver, and five minutes later\<close>









section \<open>Monthly recurrences\<close>






section \<open>Unknown keys, and the table of the reverse direction\<close>

lemma framework_frequencies_None:
  assumes "framework_frequencies name = None"
  shows "name \<noteq> ''Weekly''" "name \<noteq> ''Monthly''"
  using assms by (auto simp: framework_frequencies_def)

lemma rule_unknown_name:
  assumes "repeat_on doc = Some name" "framework_frequencies name = None"
    "repeat_till doc = None"
  shows "repeat_on_to_google_calendar_recurrence_rule e framework_frequencies doc
           = Inr (None, framework_frequencies)"
  using assms framework_frequencies_None [OF assms(2)]
  by (simp add: repeat_on_to_google_calendar_recurrence_rule_def recurrence_byday_def Let_def)

lemma to_repeat_on_unknown_frequency:
  assumes "get_recurrence_parameters rs = (Some f, until, byday)"
    and "google_calendar_frequencies f = None"
  shows "google_calendar_to_repeat_on e start end (Some rs)
           = Some (Inr ((seed_repeat_on e start end)(''repeat_on'' \<mapsto> VNone)))"
proof -
  have ne: "rs \<noteq> []" using assms(1) by (rule get_recurrence_parameters_nonempty)
  have l: "frequency_lookup (Some f) = VNone" using assms(2) by (rule frequency_lookup_None)
  have "before_yearly e start end rs =
     Some (Inr (until, (seed_repeat_on e start end)
        (''repeat_on'' \<mapsto> frequency_lookup (Some f))))"
    using assms(1) by (rule before_yearly_plain) (simp_all add: l)
  then show ?thesis unfolding l by (simp add: to_repeat_on_before_yearly [OF ne])
qed

lemma to_repeat_on_unknown_day:
  assumes "get_recurrence_parameters rs = (Some f, until, Some b)"
    and "google_calendar_frequencies f = Some ''Weekly''"
    and "byday_value b = Inr v"
    and "c \<in> set (split_on CHR '','' v)"
    and "google_calendar_days c = None"
  shows "google_calendar_to_repeat_on e start end (Some rs) = Some (Inl KeyError)"
proof -
  have ne: "rs \<noteq> []" using assms(1) by (rule get_recurrence_parameters_nonempty)
  have l: "frequency_lookup (Some f) = VStr ''Weekly''"
    using assms(2) by (rule frequency_lookup_Some)
  have k: "set_days (split_on CHR '','' v)
             ((seed_repeat_on e start end)
                (''repeat_on'' \<mapsto> VStr ''Weekly'', ''repeat_till'' \<mapsto> opt_str until))
           = Inl KeyError"
    using assms(4,5) by (rule set_days_KeyError)
  have "before_yearly e start end rs = Some (Inl KeyError)"
    unfolding before_yearly_weekly [OF assms(1) l assms(3)] k by simp
  then show ?thesis by (simp add: to_repeat_on_before_yearly [OF ne])
qed

text \<open>
  C1 (as amended). Of the lookups on a key that is not in its table, only the weekday code
  of a Weekly recurrence fails, with KeyError. A frequency token that is not in the
  frequency table is looked up with \<open>get\<close>: the function returns the seeded dictionary
  with \<open>repeat_on\<close> set to \<open>None\<close>. In the reverse direction a frequency name that is not in
  the table is looked up with \<open>get\<close> as well: for a document without \<open>repeat_till\<close> the
  function returns \<open>None\<close> and leaves the table as it was.
\<close>

theorem unknown_keys:
  "(get_recurrence_parameters rs = (Some f, until, byday)
      \<longrightarrow> google_calendar_frequencies f = None
      \<longrightarrow> google_calendar_to_repeat_on e start end (Some rs)
            = Some (Inr ((seed_repeat_on e start end)(''repeat_on'' \<mapsto> VNone))))
   \<and> (get_recurrence_parameters rs' = (Some f', until', Some b)
      \<longrightarrow> google_calendar_frequencies f' = Some ''Weekly''
      \<longrightarrow> byday_value b = Inr v
      \<longrightarrow> c \<in> set (split_on CHR '','' v)
      \<longrightarrow> google_calendar_days c = None
      \<longrightarrow> google_calendar_to_repeat_on e start end (Some rs') = Some (Inl KeyError))
   \<and> (repeat_on doc = Some name
      \<longrightarrow> framework_frequencies name = None
      \<longrightarrow> repeat_till doc = None
      \<longrightarrow> repeat_on_to_google_calendar_recurrence_rule e framework_frequencies doc
            = Inr (None, framework_frequencies))"
  using to_repeat_on_unknown_frequency [of rs f until byday e start "end"]
    to_repeat_on_unknown_day [of rs' f' until' b v c e start "end"]
    rule_unknown_name [of doc name e]
  by blast

theorem unknown_keys_witness:
  "get_recurrence_parameters [''RRULE:FREQ=HOURLY'', ''BYDAY=MO'']
     = (Some ''RRULE:FREQ=HOURLY'', None, Some ''BYDAY=MO'')
   \<and> google_calendar_frequencies ''RRULE:FREQ=HOURLY'' = None
   \<and> google_calendar_to_repeat_on sample_env (Some sample_start) (Some sample_end)
        (Some [''RRULE:FREQ=HOURLY'', ''BYDAY=MO''])
      = Some (Inr ((seed_repeat_on sample_env (Some sample_start) (Some sample_end))
                 (''repeat_on'' \<mapsto> VNone)))
   \<and> get_recurrence_parameters [''RRULE:FREQ=WEEKLY'', ''BYDAY=MO,XX'']
     = (Some ''RRULE:FREQ=WEEKLY'', None, Some ''BYDAY=MO,XX'')
   \<and> google_calendar_frequencies ''RRULE:FREQ=WEEKLY'' = Some ''Weekly''
   \<and> byday_value ''BYDAY=MO,XX'' = Inr ''MO,XX''
   \<and> ''XX'' \<in> set (split_on CHR '','' ''MO,XX'')
   \<and> google_calendar_days ''XX'' = None
   \<and> google_calendar_to_repeat_on sample_env (Some sample_start) (Some sample_end)
        (Some [''RRULE:FREQ=WEEKLY'', ''BYDAY=MO,XX'']) = Some (Inl KeyError)
   \<and> repeat_on sample_doc_hourly = Some ''Hourly''
   \<and> framework_frequencies ''Hourly'' = None
   \<and> repeat_till sample_doc_hourly = None
   \<and> repeat_on_to_google_calendar_recurrence_rule sample_env framework_frequencies
        sample_doc_hourly = Inr (None, framework_frequencies)"
proof -
  have g1: "get_recurrence_parameters [''RRULE:FREQ=HOURLY'', ''BYDAY=MO'']
     = (Some ''RRULE:FREQ=HOURLY'', None, Some ''BYDAY=MO'')"
    by (simp add: get_recurrence_parameters_def)
  have q1: "google_calendar_frequencies ''RRULE:FREQ=HOURLY'' = None"
    by (simp add: google_calendar_frequencies_def)
  have g2: "get_recurrence_parameters [''RRULE:FREQ=WEEKLY'', ''BYDAY=MO,XX'']
     = (Some ''RRULE:FREQ=WEEKLY'', None, Some ''BYDAY=MO,XX'')"
    by (simp add: get_recurrence_parameters_def)
  have q2: "google_calendar_frequencies ''RRULE:FREQ=WEEKLY'' = Some ''Weekly''"
    by (simp add: google_calendar_frequencies_def)
  have v: "byday_value ''BYDAY=MO,XX'' = Inr ''MO,XX''"
    by (simp add: byday_value_def)
  have m: "''XX'' \<in> set (split_on CHR '','' ''MO,XX'')" by simp
  have d: "google_calendar_days ''XX'' = None"
    by (simp add: google_calendar_days_def)
  have r: "repeat_on sample_doc_hourly = Some ''Hourly''"
    by (simp add: sample_doc_hourly_def)
  have h: "framework_frequencies ''Hourly'' = None"
    by (simp add: framework_frequencies_def)
  have t: "repeat_till sample_doc_hourly = None"
    by (simp add: sample_doc_hourly_def)
  from unknown_keys [of "[''RRULE:FREQ=HOURLY'', ''BYDAY=MO'']" "''RRULE:FREQ=HOURLY''"
      None "Some ''BYDAY=MO''" sample_env "Some sample_start" "Some sample_end"
      "[''RRULE:FREQ=WEEKLY'', ''BYDAY=MO,XX'']" "''RRULE:FREQ=WEEKLY''" None
      "''BYDAY=MO,XX''" "''MO,XX''" "''XX''" sample_doc_hourly "''Hourly''"]
  have a: "google_calendar_to_repeat_on sample_env (Some sample_start) (Some sample_end)
        (Some [''RRULE:FREQ=HOURLY'', ''BYDAY=MO''])
      = Some (Inr ((seed_repeat_on sample_env (Some sample_start) (Some sample_end))
                 (''repeat_on'' \<mapsto> VNone)))"
    and b: "google_calendar_to_repeat_on sample_env (Some sample_start) (Some sample_end)
        (Some [''RRULE:FREQ=WEEKLY'', ''BYDAY=MO,XX'']) = Some (Inl KeyError)"
    and c: "repeat_on_to_google_calendar_recurrence_rule sample_env framework_frequencies
        sample_doc_hourly = Inr (None, framework_frequencies)"
    using g1 q1 g2 q2 v m d r h t by blast+
  from g1 q1 a g2 q2 v m d b r h t c show ?thesis by blast
qed

text \<open>
  An unrecognised frequency token raises no error: the function returns a dictionary, with
  \<open>repeat_on\<close> set to \<open>None\<close>.
\<close>

theorem unknown_frequency_returns:
  "result_field (google_calendar_to_repeat_on sample_env (Some sample_start) (Some sample_end)
       (Some [''RRULE:FREQ=HOURLY''])) ''repeat_on'' = Some VNone"
proof -
  have g: "get_recurrence_parameters [''RRULE:FREQ=HOURLY'']
       = (Some ''RRULE:FREQ=HOURLY'', None, None)"
    by (simp add: get_recurrence_parameters_def)
  have q: "google_calendar_frequencies ''RRULE:FREQ=HOURLY'' = None"
    by (simp add: google_calendar_frequencies_def)
  show ?thesis
    unfolding to_repeat_on_unknown_frequency [OF g q] by (simp add: result_field_def)
qed

lemma rule_daily:
  assumes "repeat_on doc = Some ''Daily''" "table ''Daily'' = Some d"
  shows "repeat_on_to_google_calendar_recurrence_rule e table doc =
     (case repeat_till doc of
        None \<Rightarrow> Inr (Some d, table)
      | Some u \<Rightarrow> Inr (Some (d(''UNTIL'' \<mapsto> VDatetime (getdate u))),
                      table(''Daily'' \<mapsto> d(''UNTIL'' \<mapsto> VDatetime (getdate u)))))"
  using assms
  by (simp add: repeat_on_to_google_calendar_recurrence_rule_def recurrence_byday_def Let_def
        recurrence_setitem_def split: option.splits)

text \<open>
  C8. The function writes into the dictionary stored in the table. A daily event without
  \<open>repeat_till\<close> gets no UNTIL from the table as it is at first; the call for a daily event
  with \<open>repeat_till\<close> leaves its UNTIL in the table, which had none; and the same call for
  the first event, made after it, returns that UNTIL.
\<close>

theorem rule_table_keeps_until:
  "rule_field (repeat_on_to_google_calendar_recurrence_rule sample_env framework_frequencies
       sample_doc) ''UNTIL'' = None
   \<and> table_field framework_frequencies ''Daily'' ''UNTIL'' = None
   \<and> table_field (rule_table (repeat_on_to_google_calendar_recurrence_rule sample_env
         framework_frequencies sample_doc_till) framework_frequencies) ''Daily'' ''UNTIL''
       = Some (VDatetime (getdate sample_end))
   \<and> rule_field (repeat_on_to_google_calendar_recurrence_rule sample_env
         (rule_table (repeat_on_to_google_calendar_recurrence_rule sample_env
            framework_frequencies sample_doc_till) framework_frequencies)
         sample_doc) ''UNTIL''
       = Some (VDatetime (getdate sample_end))"
proof -
  let ?d = "[''FREQ'' \<mapsto> VStr ''DAILY'']"
  let ?u = "VDatetime (getdate sample_end)"
  let ?t = "framework_frequencies(''Daily'' \<mapsto> ?d(''UNTIL'' \<mapsto> ?u))"
  have f: "framework_frequencies ''Daily'' = Some ?d"
    by (simp add: framework_frequencies_def)
  have r1: "repeat_on sample_doc = Some ''Daily''" "repeat_till sample_doc = None"
    by (simp_all add: sample_doc_def)
  have r2: "repeat_on sample_doc_till = Some ''Daily''"
    "repeat_till sample_doc_till = Some sample_end"
    by (simp_all add: sample_doc_till_def)
  have c1: "repeat_on_to_google_calendar_recurrence_rule sample_env framework_frequencies
       sample_doc = Inr (Some ?d, framework_frequencies)"
    unfolding rule_daily [where table = framework_frequencies, OF r1(1) f] r1(2) by simp
  have c2: "repeat_on_to_google_calendar_recurrence_rule sample_env framework_frequencies
       sample_doc_till = Inr (Some (?d(''UNTIL'' \<mapsto> ?u)), ?t)"
    unfolding rule_daily [where table = framework_frequencies, OF r2(1) f] r2(2) by simp
  have t: "?t ''Daily'' = Some (?d(''UNTIL'' \<mapsto> ?u))" by simp
  have c3: "repeat_on_to_google_calendar_recurrence_rule sample_env ?t sample_doc
       = Inr (Some (?d(''UNTIL'' \<mapsto> ?u)), ?t)"
    unfolding rule_daily [where table = "?t", OF r1(1) t] r1(2) by simp
  have a1: "rule_field (repeat_on_to_google_calendar_recurrence_rule sample_env
       framework_frequencies sample_doc) ''UNTIL'' = None"
    unfolding c1 by (simp add: rule_field_def)
  have a2: "table_field framework_frequencies ''Daily'' ''UNTIL'' = None"
    by (simp add: table_field_def f)
  have e: "rule_table (repeat_on_to_google_calendar_recurrence_rule sample_env
         framework_frequencies sample_doc_till) framework_frequencies = ?t"
    unfolding c2 by (simp add: rule_table_def)
  have a3: "table_field ?t ''Daily'' ''UNTIL'' = Some ?u"
    by (simp add: table_field_def)
  have a4: "rule_field (repeat_on_to_google_calendar_recurrence_rule sample_env ?t sample_doc)
      ''UNTIL'' = Some ?u"
    unfolding c3 by (simp add: rule_field_def)
  show ?thesis unfolding e using a1 a2 a3 a4 by blast
qed

end
